theory Spec2Isabelle
  imports Main "HOL-Library.Word"
begin

section \<open>Per-entity artificial lights control (ArtificialLightsNatives.cpp)\<close>

text \<open>
  The translation unit keeps a set of raw entity pointers, a reader/writer mutex for it
  and two pointers to boolean cells of the game. It hooks \<open>Lights::AddSceneLight\<close> and
  registers four natives and one session-end handler. Each source function becomes a
  function on an explicit state; every action on the mutex, on the set, on game memory
  and every call that leaves the translation unit is appended, in program order, to a
  log kept in the state.
\<close>

subsection \<open>Values\<close>

text \<open>\<open>void*\<close> on the 64-bit target; \<open>nullptr\<close> is the address 0.\<close>

type_synonym addr = "64 word"

text \<open>The script handle, a C++ \<open>int\<close>.\<close>

type_synonym handle = "32 word"

text \<open>\<open>LIGHT_ENTITY_PARENT_OFFSET\<close>\<close>

definition LIGHT_ENTITY_PARENT_OFFSET :: addr where
  "LIGHT_ENTITY_PARENT_OFFSET = 0xD0"

text \<open>
  Game memory as the code reads it: pointer-sized cells (the \<open>m_parentEntity\<close> field)
  and boolean cells (the two renderer flags), both indexed by address.
\<close>

record host_mem =
  ptr_at :: "addr \<Rightarrow> addr"
  bool_at :: "addr \<Rightarrow> bool"

datatype event =
    AcquireShared
  | AcquireExclusive
  | Release
  | SetFind addr
  | SetInsert addr
  | SetErase addr
  | SetClear
  | LoadPtr addr
  | LoadBool addr
  | StoreBool addr bool
  | CallOrig addr addr bool
  | CallGetBaseFromGuid handle
  | CallGetGuidFromBase addr

text \<open>
  The globals of the translation unit, the game memory, and the log. The
  \<open>std::unordered_set\<close> is the list of its elements in iteration order; \<open>insert\<close> and
  \<open>erase\<close> below keep it free of duplicates.
\<close>

record state =
  g_entitiesIgnoringBlackout :: "addr list"
  g_disableArtificialLights :: addr
  g_disableArtificialVehLights :: addr
  memory :: host_mem
  trace :: "event list"

text \<open>
  What the translation unit calls and does not define: the trampoline to the original
  \<open>Lights::AddSceneLight\<close>, which reads and writes game memory and returns a boolean,
  and the two directions of \<open>rage::fwScriptGuid\<close>.
\<close>

record host =
  g_origAddSceneLight :: "addr \<Rightarrow> addr \<Rightarrow> bool \<Rightarrow> host_mem \<Rightarrow> bool \<times> host_mem"
  GetBaseFromGuid :: "handle \<Rightarrow> addr"
  GetGuidFromBase :: "addr \<Rightarrow> handle"

subsection \<open>Primitive actions\<close>

definition emit :: "event \<Rightarrow> state \<Rightarrow> state" where
  "emit e s = s\<lparr>trace := trace s @ [e]\<rparr>"

text \<open>\<open>std::shared_lock lock(g_entitiesMutex)\<close>, \<open>std::unique_lock\<close>, and the end of the
  lock's scope.\<close>

definition shared_lock :: "state \<Rightarrow> state" where
  "shared_lock s = emit AcquireShared s"

definition unique_lock :: "state \<Rightarrow> state" where
  "unique_lock s = emit AcquireExclusive s"

definition unlock :: "state \<Rightarrow> state" where
  "unlock s = emit Release s"

text \<open>\<open>g_entitiesIgnoringBlackout.find(entity) != end()\<close>\<close>

definition set_find :: "addr \<Rightarrow> state \<Rightarrow> bool \<times> state" where
  "set_find entity s =
     (entity \<in> set (g_entitiesIgnoringBlackout s), emit (SetFind entity) s)"

text \<open>\<open>g_entitiesIgnoringBlackout.insert(entity)\<close>: no effect when already present.\<close>

definition set_insert :: "addr \<Rightarrow> state \<Rightarrow> state" where
  "set_insert entity s =
     emit (SetInsert entity)
       (s\<lparr>g_entitiesIgnoringBlackout :=
            (if entity \<in> set (g_entitiesIgnoringBlackout s)
             then g_entitiesIgnoringBlackout s
             else g_entitiesIgnoringBlackout s @ [entity])\<rparr>)"

text \<open>\<open>g_entitiesIgnoringBlackout.erase(entity)\<close>\<close>

definition set_erase :: "addr \<Rightarrow> state \<Rightarrow> state" where
  "set_erase entity s =
     emit (SetErase entity)
       (s\<lparr>g_entitiesIgnoringBlackout := removeAll entity (g_entitiesIgnoringBlackout s)\<rparr>)"

text \<open>\<open>g_entitiesIgnoringBlackout.clear()\<close>\<close>

definition set_clear :: "state \<Rightarrow> state" where
  "set_clear s = emit SetClear (s\<lparr>g_entitiesIgnoringBlackout := []\<rparr>)"

text \<open>Reading a pointer cell, reading and writing a boolean cell of game memory.\<close>

definition load_ptr :: "addr \<Rightarrow> state \<Rightarrow> addr \<times> state" where
  "load_ptr p s = (ptr_at (memory s) p, emit (LoadPtr p) s)"

definition load_bool :: "addr \<Rightarrow> state \<Rightarrow> bool \<times> state" where
  "load_bool p s = (bool_at (memory s) p, emit (LoadBool p) s)"

definition store_bool :: "addr \<Rightarrow> bool \<Rightarrow> state \<Rightarrow> state" where
  "store_bool p v s =
     emit (StoreBool p v)
       (s\<lparr>memory := (memory s)\<lparr>bool_at := (bool_at (memory s))(p := v)\<rparr>\<rparr>)"

text \<open>The calls that leave the translation unit.\<close>

definition call_orig :: "host \<Rightarrow> addr \<Rightarrow> addr \<Rightarrow> bool \<Rightarrow> state \<Rightarrow> bool \<times> state" where
  "call_orig h sceneLight lightEntity addToPreviousLightList s =
     (let s1 = emit (CallOrig sceneLight lightEntity addToPreviousLightList) s;
          (result, m) = g_origAddSceneLight h sceneLight lightEntity addToPreviousLightList (memory s1)
      in (result, s1\<lparr>memory := m\<rparr>))"

definition call_GetBaseFromGuid :: "host \<Rightarrow> handle \<Rightarrow> state \<Rightarrow> addr \<times> state" where
  "call_GetBaseFromGuid h entityHandle s =
     (GetBaseFromGuid h entityHandle, emit (CallGetBaseFromGuid entityHandle) s)"

definition call_GetGuidFromBase :: "host \<Rightarrow> addr \<Rightarrow> state \<Rightarrow> handle \<times> state" where
  "call_GetGuidFromBase h entityPtr s =
     (GetGuidFromBase h entityPtr, emit (CallGetGuidFromBase entityPtr) s)"

subsection \<open>The hook\<close>

text \<open>\<open>DoesEntityIgnoreBlackout\<close>: the null check comes before the lock.\<close>

definition DoesEntityIgnoreBlackout :: "addr \<Rightarrow> state \<Rightarrow> bool \<times> state" where
  "DoesEntityIgnoreBlackout entity s =
     (if entity = 0 then (False, s)
      else
        (let s1 = shared_lock s;
             (found, s2) = set_find entity s1
         in (found, unlock s2)))"

text \<open>\<open>GetParentEntityFromLightEntity\<close>\<close>

definition GetParentEntityFromLightEntity :: "addr \<Rightarrow> state \<Rightarrow> addr \<times> state" where
  "GetParentEntityFromLightEntity lightEntity s =
     (if lightEntity = 0 then (0, s)
      else load_ptr (lightEntity + LIGHT_ENTITY_PARENT_OFFSET) s)"

text \<open>\<open>AddSceneLightHook\<close>\<close>

definition AddSceneLightHook :: "host \<Rightarrow> addr \<Rightarrow> addr \<Rightarrow> bool \<Rightarrow> state \<Rightarrow> bool \<times> state" where
  "AddSceneLightHook h sceneLight lightEntity addToPreviousLightList s =
     (let (parentEntity, s1) = GetParentEntityFromLightEntity lightEntity s;
          (shouldOverride, s2) = DoesEntityIgnoreBlackout parentEntity s1;
          origLightsState = False;
          origVehLightsState = False;
          (origLightsState, origVehLightsState, s3) =
            (if shouldOverride \<and> g_disableArtificialLights s2 \<noteq> 0
                 \<and> g_disableArtificialVehLights s2 \<noteq> 0
             then
               (let (l, s2a) = load_bool (g_disableArtificialLights s2) s2;
                    (v, s2b) = load_bool (g_disableArtificialVehLights s2a) s2a;
                    s2c = store_bool (g_disableArtificialLights s2b) False s2b;
                    s2d = store_bool (g_disableArtificialVehLights s2c) False s2c
                in (l, v, s2d))
             else (origLightsState, origVehLightsState, s2));
          (result, s4) = call_orig h sceneLight lightEntity addToPreviousLightList s3;
          s5 =
            (if shouldOverride \<and> g_disableArtificialLights s4 \<noteq> 0
                 \<and> g_disableArtificialVehLights s4 \<noteq> 0
             then
               (let s4a = store_bool (g_disableArtificialLights s4) origLightsState s4
                in store_bool (g_disableArtificialVehLights s4a) origVehLightsState s4a)
             else s4)
      in (result, s5))"

subsection \<open>The natives and the session-end handler\<close>

text \<open>\<open>SET_ENTITY_LIGHTS_IGNORE_ARTIFICIAL_STATE\<close>\<close>

definition SET_ENTITY_LIGHTS_IGNORE_ARTIFICIAL_STATE ::
  "host \<Rightarrow> handle \<Rightarrow> bool \<Rightarrow> state \<Rightarrow> state" where
  "SET_ENTITY_LIGHTS_IGNORE_ARTIFICIAL_STATE h entityHandle ignoreBlackout s =
     (let (entity, s1) = call_GetBaseFromGuid h entityHandle s
      in if entity = 0 then s1
         else
           (let s2 = unique_lock s1;
                s3 = (if ignoreBlackout then set_insert entity s2 else set_erase entity s2)
            in unlock s3))"

text \<open>\<open>DOES_ENTITY_LIGHTS_IGNORE_ARTIFICIAL_STATE\<close>\<close>

definition DOES_ENTITY_LIGHTS_IGNORE_ARTIFICIAL_STATE ::
  "host \<Rightarrow> handle \<Rightarrow> state \<Rightarrow> bool \<times> state" where
  "DOES_ENTITY_LIGHTS_IGNORE_ARTIFICIAL_STATE h entityHandle s =
     (let (entity, s1) = call_GetBaseFromGuid h entityHandle s
      in if entity = 0 then (False, s1)
         else DoesEntityIgnoreBlackout entity s1)"

text \<open>\<open>CLEAR_ALL_ENTITY_LIGHTS_IGNORE_ARTIFICIAL_STATE\<close>\<close>

definition CLEAR_ALL_ENTITY_LIGHTS_IGNORE_ARTIFICIAL_STATE :: "state \<Rightarrow> state" where
  "CLEAR_ALL_ENTITY_LIGHTS_IGNORE_ARTIFICIAL_STATE s = unlock (set_clear (unique_lock s))"

text \<open>
  The loop of \<open>GET_ALL_ENTITIES_IGNORING_ARTIFICIAL_LIGHTS_STATE\<close> over the elements
  still to visit, with the vector built so far.
\<close>

fun collect_handles :: "host \<Rightarrow> addr list \<Rightarrow> handle list \<Rightarrow> state \<Rightarrow> handle list \<times> state" where
  "collect_handles h [] entityList s = (entityList, s)"
| "collect_handles h (entityPtr # rest) entityList s =
     (let (hdl, s1) = call_GetGuidFromBase h entityPtr s
      in collect_handles h rest (if hdl \<noteq> 0 then entityList @ [hdl] else entityList) s1)"

text \<open>\<open>GET_ALL_ENTITIES_IGNORING_ARTIFICIAL_LIGHTS_STATE\<close>: the lock is taken before the
  loop and lives to the end of the handler. The result is the vector handed to
  \<open>fx::SerializeObject\<close>.\<close>

definition GET_ALL_ENTITIES_IGNORING_ARTIFICIAL_LIGHTS_STATE ::
  "host \<Rightarrow> state \<Rightarrow> handle list \<times> state" where
  "GET_ALL_ENTITIES_IGNORING_ARTIFICIAL_LIGHTS_STATE h s =
     (let entityList = [];
          s1 = shared_lock s;
          (entityList, s2) = collect_handles h (g_entitiesIgnoringBlackout s1) entityList s1
      in (entityList, unlock s2))"

text \<open>The handler connected to \<open>OnKillNetworkDone\<close>.\<close>

definition OnKillNetworkDone :: "state \<Rightarrow> state" where
  "OnKillNetworkDone s = unlock (set_clear (unique_lock s))"

subsection \<open>Sequences of entry points\<close>

text \<open>
  One invocation of an entry point of the translation unit with its arguments; the
  host functions come with each invocation, since the game changes between calls.
\<close>

datatype invocation =
    SetIgnoreState host handle bool
  | GetIgnoreState host handle
  | ClearAll
  | EnumerateAll host
  | SessionEnd
  | SceneLight host addr addr bool

fun invoke :: "invocation \<Rightarrow> state \<Rightarrow> state" where
  "invoke (SetIgnoreState h g b) s = SET_ENTITY_LIGHTS_IGNORE_ARTIFICIAL_STATE h g b s"
| "invoke (GetIgnoreState h g) s = snd (DOES_ENTITY_LIGHTS_IGNORE_ARTIFICIAL_STATE h g s)"
| "invoke ClearAll s = CLEAR_ALL_ENTITY_LIGHTS_IGNORE_ARTIFICIAL_STATE s"
| "invoke (EnumerateAll h) s = snd (GET_ALL_ENTITIES_IGNORING_ARTIFICIAL_LIGHTS_STATE h s)"
| "invoke SessionEnd s = OnKillNetworkDone s"
| "invoke (SceneLight h sl le f) s = snd (AddSceneLightHook h sl le f s)"

fun run :: "invocation list \<Rightarrow> state \<Rightarrow> state" where
  "run [] s = s"
| "run (c # cs) s = run cs (invoke c s)"

subsection \<open>Reading the log\<close>

text \<open>The events an entry point appended to the log of the state it was entered with.\<close>

definition new_events :: "state \<Rightarrow> state \<Rightarrow> event list" where
  "new_events s s' = drop (length (trace s)) (trace s')"

text \<open>The calls that leave the translation unit.\<close>

fun is_external_call :: "event \<Rightarrow> bool" where
  "is_external_call (CallOrig sl le f) = True"
| "is_external_call (CallGetBaseFromGuid g) = True"
| "is_external_call (CallGetGuidFromBase e) = True"
| "is_external_call e = False"

text \<open>
  Whether no call out is made between an acquisition of the mutex and the next release;
  the first argument says whether the mutex is held at the start of the events.
\<close>

fun no_call_while_locked :: "bool \<Rightarrow> event list \<Rightarrow> bool" where
  "no_call_while_locked held [] = True"
| "no_call_while_locked held (AcquireShared # es) = no_call_while_locked True es"
| "no_call_while_locked held (AcquireExclusive # es) = no_call_while_locked True es"
| "no_call_while_locked held (Release # es) = no_call_while_locked False es"
| "no_call_while_locked held (e # es) =
     (if is_external_call e \<and> held then False else no_call_while_locked held es)"

text \<open>Reads and writes of boolean cells, and the writes alone.\<close>

fun is_flag_access :: "event \<Rightarrow> bool" where
  "is_flag_access (LoadBool p) = True"
| "is_flag_access (StoreBool p v) = True"
| "is_flag_access e = False"

fun is_store :: "event \<Rightarrow> bool" where
  "is_store (StoreBool p v) = True"
| "is_store e = False"

text \<open>Operations on the mutex and on the set.\<close>

fun is_set_or_lock_event :: "event \<Rightarrow> bool" where
  "is_set_or_lock_event AcquireShared = True"
| "is_set_or_lock_event AcquireExclusive = True"
| "is_set_or_lock_event Release = True"
| "is_set_or_lock_event (SetFind e) = True"
| "is_set_or_lock_event (SetInsert e) = True"
| "is_set_or_lock_event (SetErase e) = True"
| "is_set_or_lock_event SetClear = True"
| "is_set_or_lock_event e = False"

text \<open>The events of the first two statements of the hook.\<close>

definition lookup_events :: "addr \<Rightarrow> addr \<Rightarrow> event list" where
  "lookup_events lightEntity parentEntity =
     (if lightEntity = 0 then [] else [LoadPtr (lightEntity + LIGHT_ENTITY_PARENT_OFFSET)])
     @ (if parentEntity = 0 then [] else [AcquireShared, SetFind parentEntity, Release])"

subsection \<open>A test bench\<close>

text \<open>
  A stand-in for the original function that writes the two flag values it sees into
  two other cells and returns true, and resolvers that know one entity.
\<close>

definition recording_orig ::
  "addr \<Rightarrow> addr \<Rightarrow> addr \<Rightarrow> addr \<Rightarrow> addr \<Rightarrow> addr \<Rightarrow> bool \<Rightarrow> host_mem \<Rightarrow> bool \<times> host_mem" where
  "recording_orig gl gv rl rv sceneLight lightEntity addToPreviousLightList m =
     (True, m\<lparr>bool_at := (bool_at m)(rl := bool_at m gl, rv := bool_at m gv)\<rparr>)"

definition bench_GetBaseFromGuid :: "handle \<Rightarrow> addr" where
  "bench_GetBaseFromGuid g = (if g = 42 then 0x900 else 0)"

definition bench_GetGuidFromBase :: "addr \<Rightarrow> handle" where
  "bench_GetGuidFromBase e = (if e = 0x900 then 42 else 0)"

definition bench_host :: host where
  "bench_host =
     \<lparr>g_origAddSceneLight = recording_orig 0x1000 0x1001 0x2000 0x2001,
      GetBaseFromGuid = bench_GetBaseFromGuid,
      GetGuidFromBase = bench_GetGuidFromBase\<rparr>"

text \<open>
  A stand-in for the original function that itself stores false to the cell \<open>p\<close> and
  returns true.
\<close>

definition clearing_orig ::
  "addr \<Rightarrow> addr \<Rightarrow> addr \<Rightarrow> bool \<Rightarrow> host_mem \<Rightarrow> bool \<times> host_mem" where
  "clearing_orig p sceneLight lightEntity addToPreviousLightList m =
     (True, m\<lparr>bool_at := (bool_at m)(p := False)\<rparr>)"

definition bench_host_clearing :: host where
  "bench_host_clearing =
     \<lparr>g_origAddSceneLight = clearing_orig 0x1000,
      GetBaseFromGuid = bench_GetBaseFromGuid,
      GetGuidFromBase = bench_GetGuidFromBase\<rparr>"

definition const_ptr :: "addr \<Rightarrow> addr \<Rightarrow> addr" where
  "const_ptr v p = v"

definition const_bool :: "bool \<Rightarrow> addr \<Rightarrow> bool" where
  "const_bool v p = v"

text \<open>A light entity at 0x500 whose parent is the entity at 0x900; both flags set.\<close>

definition bench_mem :: host_mem where
  "bench_mem =
     \<lparr>ptr_at = (const_ptr 0)(0x5D0 := 0x900),
      bool_at = (const_bool False)(0x1000 := True, 0x1001 := True)\<rparr>"

definition bench_state :: "addr list \<Rightarrow> state" where
  "bench_state entities =
     \<lparr>g_entitiesIgnoringBlackout = entities,
      g_disableArtificialLights = 0x1000,
      g_disableArtificialVehLights = 0x1001,
      memory = bench_mem,
      trace = []\<rparr>"

section \<open>Properties\<close>

subsection \<open>The entry points in closed form\<close>

lemmas prim_defs = emit_def shared_lock_def unique_lock_def unlock_def set_find_def set_insert_def
  set_erase_def set_clear_def load_ptr_def load_bool_def store_bool_def call_orig_def
  call_GetBaseFromGuid_def call_GetGuidFromBase_def

lemmas bench_defs = recording_orig_def bench_GetBaseFromGuid_def bench_GetGuidFromBase_def
  bench_host_def const_ptr_def const_bool_def bench_mem_def bench_state_def
  LIGHT_ENTITY_PARENT_OFFSET_def

lemma new_events_append [simp]: "new_events s (s'\<lparr>trace := trace s @ evs\<rparr>) = evs"
  by (simp add: new_events_def)

lemma new_events_same [simp]: "new_events s s = []"
  by (simp add: new_events_def)

lemma DoesEntityIgnoreBlackout_fst:
  "fst (DoesEntityIgnoreBlackout entity s) =
     (entity \<noteq> 0 \<and> entity \<in> set (g_entitiesIgnoringBlackout s))"
  by (simp add: DoesEntityIgnoreBlackout_def prim_defs)

lemma hook_passthrough:
  assumes "fst (GetParentEntityFromLightEntity le s) = p"
  assumes "p = 0 \<or> p \<notin> set (g_entitiesIgnoringBlackout s)
     \<or> g_disableArtificialLights s = 0 \<or> g_disableArtificialVehLights s = 0"
  shows "AddSceneLightHook h sl le f s =
    (fst (g_origAddSceneLight h sl le f (memory s)),
     s\<lparr>memory := snd (g_origAddSceneLight h sl le f (memory s)),
       trace := trace s @ lookup_events le p @ [CallOrig sl le f]\<rparr>)"
  using assms
  by (auto simp add: AddSceneLightHook_def GetParentEntityFromLightEntity_def
      DoesEntityIgnoreBlackout_def prim_defs Let_def split_def lookup_events_def)

lemma hook_override:
  assumes "fst (GetParentEntityFromLightEntity le s) = p"
  assumes "p \<noteq> 0" "p \<in> set (g_entitiesIgnoringBlackout s)"
     "g_disableArtificialLights s = gl" "g_disableArtificialVehLights s = gv"
     "gl \<noteq> 0" "gv \<noteq> 0"
  assumes "m0 = (memory s)\<lparr>bool_at := (bool_at (memory s))(gl := False, gv := False)\<rparr>"
  assumes "g_origAddSceneLight h sl le f m0 = (r, m1)"
  shows "AddSceneLightHook h sl le f s =
    (r,
     s\<lparr>memory := m1\<lparr>bool_at := (bool_at m1)(gl := bool_at (memory s) gl, gv := bool_at (memory s) gv)\<rparr>,
       trace := trace s @ lookup_events le p @
         [LoadBool gl, LoadBool gv, StoreBool gl False, StoreBool gv False,
          CallOrig sl le f,
          StoreBool gl (bool_at (memory s) gl), StoreBool gv (bool_at (memory s) gv)]\<rparr>)"
  using assms
  by (auto simp add: AddSceneLightHook_def GetParentEntityFromLightEntity_def
      DoesEntityIgnoreBlackout_def prim_defs Let_def split_def lookup_events_def)

lemma hook_entities:
  "g_entitiesIgnoringBlackout (snd (AddSceneLightHook h sl le f s)) = g_entitiesIgnoringBlackout s"
proof (cases "fst (GetParentEntityFromLightEntity le s) = 0
    \<or> fst (GetParentEntityFromLightEntity le s) \<notin> set (g_entitiesIgnoringBlackout s)
    \<or> g_disableArtificialLights s = 0 \<or> g_disableArtificialVehLights s = 0")
  case True
  show ?thesis by (simp add: hook_passthrough [OF refl True])
next
  case False
  then show ?thesis
    by (simp add: hook_override [OF refl _ _ refl refl _ _ refl surjective_pairing])
qed

lemma filter_store_lookup_events [simp]: "filter is_store (lookup_events le p) = []"
  by (simp add: lookup_events_def)

lemma filter_flag_lookup_events [simp]: "filter is_flag_access (lookup_events le p) = []"
  by (simp add: lookup_events_def)

lemma filter_call_lookup_events [simp]: "filter is_external_call (lookup_events le p) = []"
  by (simp add: lookup_events_def)

lemma collect_handles_eq:
  "collect_handles h es acc s =
     (acc @ filter (\<lambda>g. g \<noteq> 0) (map (GetGuidFromBase h) es),
      s\<lparr>trace := trace s @ map CallGetGuidFromBase es\<rparr>)"
proof (induction es arbitrary: acc s)
  case Nil
  show ?case by simp
next
  case (Cons e es)
  show ?case
    by (simp add: Cons.IH call_GetGuidFromBase_def emit_def)
qed

lemma GET_ALL_eq:
  "GET_ALL_ENTITIES_IGNORING_ARTIFICIAL_LIGHTS_STATE h s =
     (filter (\<lambda>g. g \<noteq> 0) (map (GetGuidFromBase h) (g_entitiesIgnoringBlackout s)),
      s\<lparr>trace := trace s @ AcquireShared # map CallGetGuidFromBase (g_entitiesIgnoringBlackout s)
          @ [Release]\<rparr>)"
  by (simp add: GET_ALL_ENTITIES_IGNORING_ARTIFICIAL_LIGHTS_STATE_def collect_handles_eq
      shared_lock_def unlock_def emit_def)

lemma SET_null:
  "GetBaseFromGuid h g = 0 \<Longrightarrow>
   SET_ENTITY_LIGHTS_IGNORE_ARTIFICIAL_STATE h g b s = s\<lparr>trace := trace s @ [CallGetBaseFromGuid g]\<rparr>"
  by (simp add: SET_ENTITY_LIGHTS_IGNORE_ARTIFICIAL_STATE_def call_GetBaseFromGuid_def emit_def)

lemma SET_insert:
  "GetBaseFromGuid h g = e \<Longrightarrow> e \<noteq> 0 \<Longrightarrow>
   SET_ENTITY_LIGHTS_IGNORE_ARTIFICIAL_STATE h g True s =
     s\<lparr>g_entitiesIgnoringBlackout :=
          (if e \<in> set (g_entitiesIgnoringBlackout s) then g_entitiesIgnoringBlackout s
           else g_entitiesIgnoringBlackout s @ [e]),
       trace := trace s @ [CallGetBaseFromGuid g, AcquireExclusive, SetInsert e, Release]\<rparr>"
  by (simp add: SET_ENTITY_LIGHTS_IGNORE_ARTIFICIAL_STATE_def prim_defs)

lemma SET_erase:
  "GetBaseFromGuid h g = e \<Longrightarrow> e \<noteq> 0 \<Longrightarrow>
   SET_ENTITY_LIGHTS_IGNORE_ARTIFICIAL_STATE h g False s =
     s\<lparr>g_entitiesIgnoringBlackout := removeAll e (g_entitiesIgnoringBlackout s),
       trace := trace s @ [CallGetBaseFromGuid g, AcquireExclusive, SetErase e, Release]\<rparr>"
  by (simp add: SET_ENTITY_LIGHTS_IGNORE_ARTIFICIAL_STATE_def prim_defs)

lemma SET_entities:
  "g_entitiesIgnoringBlackout (SET_ENTITY_LIGHTS_IGNORE_ARTIFICIAL_STATE h g b s) =
     (if GetBaseFromGuid h g = 0 then g_entitiesIgnoringBlackout s
      else if b then
        (if GetBaseFromGuid h g \<in> set (g_entitiesIgnoringBlackout s)
         then g_entitiesIgnoringBlackout s
         else g_entitiesIgnoringBlackout s @ [GetBaseFromGuid h g])
      else removeAll (GetBaseFromGuid h g) (g_entitiesIgnoringBlackout s))"
  by (simp add: SET_ENTITY_LIGHTS_IGNORE_ARTIFICIAL_STATE_def prim_defs)

lemma DOES_null:
  "GetBaseFromGuid h g = 0 \<Longrightarrow>
   DOES_ENTITY_LIGHTS_IGNORE_ARTIFICIAL_STATE h g s =
     (False, s\<lparr>trace := trace s @ [CallGetBaseFromGuid g]\<rparr>)"
  by (simp add: DOES_ENTITY_LIGHTS_IGNORE_ARTIFICIAL_STATE_def call_GetBaseFromGuid_def emit_def)

lemma DOES_nonnull:
  "GetBaseFromGuid h g = e \<Longrightarrow> e \<noteq> 0 \<Longrightarrow>
   DOES_ENTITY_LIGHTS_IGNORE_ARTIFICIAL_STATE h g s =
     (e \<in> set (g_entitiesIgnoringBlackout s),
      s\<lparr>trace := trace s @ [CallGetBaseFromGuid g, AcquireShared, SetFind e, Release]\<rparr>)"
  by (simp add: DOES_ENTITY_LIGHTS_IGNORE_ARTIFICIAL_STATE_def DoesEntityIgnoreBlackout_def prim_defs)

lemma DOES_entities:
  "g_entitiesIgnoringBlackout (snd (DOES_ENTITY_LIGHTS_IGNORE_ARTIFICIAL_STATE h g s)) =
     g_entitiesIgnoringBlackout s"
  by (simp add: DOES_ENTITY_LIGHTS_IGNORE_ARTIFICIAL_STATE_def DoesEntityIgnoreBlackout_def prim_defs)

lemma CLEAR_ALL_eq:
  "CLEAR_ALL_ENTITY_LIGHTS_IGNORE_ARTIFICIAL_STATE s =
     s\<lparr>g_entitiesIgnoringBlackout := [], trace := trace s @ [AcquireExclusive, SetClear, Release]\<rparr>"
  by (simp add: CLEAR_ALL_ENTITY_LIGHTS_IGNORE_ARTIFICIAL_STATE_def prim_defs)

lemma OnKillNetworkDone_eq:
  "OnKillNetworkDone s =
     s\<lparr>g_entitiesIgnoringBlackout := [], trace := trace s @ [AcquireExclusive, SetClear, Release]\<rparr>"
  by (simp add: OnKillNetworkDone_def prim_defs)

subsection \<open>The set stays free of duplicates and of null\<close>

lemma invoke_null_free:
  "0 \<notin> set (g_entitiesIgnoringBlackout s) \<Longrightarrow> 0 \<notin> set (g_entitiesIgnoringBlackout (invoke c s))"
  by (cases c)
    (simp_all add: SET_entities DOES_entities hook_entities GET_ALL_eq CLEAR_ALL_eq
      OnKillNetworkDone_eq)

lemma run_null_free:
  "0 \<notin> set (g_entitiesIgnoringBlackout s) \<Longrightarrow> 0 \<notin> set (g_entitiesIgnoringBlackout (run cs s))"
proof (induction cs arbitrary: s)
  case Nil
  then show ?case by simp
next
  case (Cons c cs)
  from Cons.prems have "0 \<notin> set (g_entitiesIgnoringBlackout (invoke c s))"
    by (rule invoke_null_free)
  then show ?case by (simp add: Cons.IH)
qed

lemma invoke_distinct:
  "distinct (g_entitiesIgnoringBlackout s) \<Longrightarrow> distinct (g_entitiesIgnoringBlackout (invoke c s))"
  by (cases c)
    (simp_all add: SET_entities DOES_entities hook_entities GET_ALL_eq CLEAR_ALL_eq
      OnKillNetworkDone_eq distinct_removeAll)

lemma run_distinct:
  "distinct (g_entitiesIgnoringBlackout s) \<Longrightarrow> distinct (g_entitiesIgnoringBlackout (run cs s))"
  by (induction cs arbitrary: s) (simp_all add: invoke_distinct)

subsection \<open>Lock scopes\<close>

lemma locked_resolver_calls:
  "no_call_while_locked True (map CallGetGuidFromBase es @ rest) =
     (es = [] \<and> no_call_while_locked True rest)"
  by (cases es) simp_all

lemma hook_events:
  "\<exists>mid. new_events s (snd (AddSceneLightHook h sl le f s)) =
     lookup_events le (fst (GetParentEntityFromLightEntity le s)) @ mid
     \<and> no_call_while_locked False mid"
proof (cases "fst (GetParentEntityFromLightEntity le s) = 0
    \<or> fst (GetParentEntityFromLightEntity le s) \<notin> set (g_entitiesIgnoringBlackout s)
    \<or> g_disableArtificialLights s = 0 \<or> g_disableArtificialVehLights s = 0")
  case True
  show ?thesis
    by (simp add: hook_passthrough [OF refl True])
next
  case False
  then show ?thesis
    by (simp add: hook_override [OF refl _ _ refl refl _ _ refl surjective_pairing])
qed

lemma lookup_events_then:
  "no_call_while_locked False (lookup_events le p @ evs) = no_call_while_locked False evs"
  by (simp add: lookup_events_def)

lemma hook_lock_scope:
  "no_call_while_locked False (new_events s (snd (AddSceneLightHook h sl le f s)))"
proof -
  from hook_events obtain mid where
    "new_events s (snd (AddSceneLightHook h sl le f s)) =
       lookup_events le (fst (GetParentEntityFromLightEntity le s)) @ mid"
    and "no_call_while_locked False mid"
    by blast
  then show ?thesis by (simp add: lookup_events_then)
qed

lemma SET_lock_scope:
  "no_call_while_locked False (new_events s (SET_ENTITY_LIGHTS_IGNORE_ARTIFICIAL_STATE h g b s))"
proof (cases "GetBaseFromGuid h g = 0")
  case True
  then show ?thesis by (simp add: SET_null)
next
  case False
  show ?thesis
    by (cases b) (simp_all add: SET_insert [OF refl False] SET_erase [OF refl False])
qed

lemma DOES_lock_scope:
  "no_call_while_locked False
     (new_events s (snd (DOES_ENTITY_LIGHTS_IGNORE_ARTIFICIAL_STATE h g s)))"
proof (cases "GetBaseFromGuid h g = 0")
  case True
  then show ?thesis by (simp add: DOES_null)
next
  case False
  show ?thesis by (simp add: DOES_nonnull [OF refl False])
qed

subsection \<open>The hook\<close>

text \<open>
  C1: when the parent entity of the light is in the set and both flag pointers are not
  null, the hook reads both flag cells, stores false to both, calls the original
  function, which therefore runs on a memory whose two flag cells are false, and then
  stores the two values it read back to the two cells: at return each flag cell holds
  the value it had at entry, and the result is the original function's.
\<close>

theorem C1_override_brackets_call:
  assumes "fst (GetParentEntityFromLightEntity lightEntity s) = entity"
    and "entity \<noteq> 0"
    and "entity \<in> set (g_entitiesIgnoringBlackout s)"
    and "g_disableArtificialLights s = gl" and "gl \<noteq> 0"
    and "g_disableArtificialVehLights s = gv" and "gv \<noteq> 0"
    and "m0 = (memory s)\<lparr>bool_at := (bool_at (memory s))(gl := False, gv := False)\<rparr>"
    and "g_origAddSceneLight h sceneLight lightEntity flag m0 = (r, m1)"
    and "AddSceneLightHook h sceneLight lightEntity flag s = (result, s')"
  shows "bool_at m0 gl = False \<and> bool_at m0 gv = False
    \<and> result = r
    \<and> memory s' = m1\<lparr>bool_at := (bool_at m1)(gl := bool_at (memory s) gl, gv := bool_at (memory s) gv)\<rparr>
    \<and> bool_at (memory s') gl = bool_at (memory s) gl
    \<and> bool_at (memory s') gv = bool_at (memory s) gv
    \<and> new_events s s' =
         [LoadPtr (lightEntity + LIGHT_ENTITY_PARENT_OFFSET),
          AcquireShared, SetFind entity, Release,
          LoadBool gl, LoadBool gv, StoreBool gl False, StoreBool gv False,
          CallOrig sceneLight lightEntity flag,
          StoreBool gl (bool_at (memory s) gl), StoreBool gv (bool_at (memory s) gv)]"
proof -
  from assms(1) assms(2) have light: "lightEntity \<noteq> 0"
    by (auto simp add: GetParentEntityFromLightEntity_def)
  have hook: "AddSceneLightHook h sceneLight lightEntity flag s =
    (r,
     s\<lparr>memory := m1\<lparr>bool_at := (bool_at m1)(gl := bool_at (memory s) gl, gv := bool_at (memory s) gv)\<rparr>,
       trace := trace s @ lookup_events lightEntity entity @
         [LoadBool gl, LoadBool gv, StoreBool gl False, StoreBool gv False,
          CallOrig sceneLight lightEntity flag,
          StoreBool gl (bool_at (memory s) gl), StoreBool gv (bool_at (memory s) gv)]\<rparr>)"
    by (rule hook_override [OF assms(1) assms(2) assms(3) assms(4) assms(6) assms(5) assms(7) assms(8) assms(9)])
  have seen: "bool_at m0 gl = False \<and> bool_at m0 gv = False"
    using assms(8) by simp
  from hook assms(10) have res: "result = r" by simp
  from hook assms(10) have s': "s' = s\<lparr>memory := m1\<lparr>bool_at := (bool_at m1)(gl := bool_at (memory s) gl, gv := bool_at (memory s) gv)\<rparr>,
       trace := trace s @ lookup_events lightEntity entity @
         [LoadBool gl, LoadBool gv, StoreBool gl False, StoreBool gv False,
          CallOrig sceneLight lightEntity flag,
          StoreBool gl (bool_at (memory s) gl), StoreBool gv (bool_at (memory s) gv)]\<rparr>"
    by simp
  have mem: "memory s' = m1\<lparr>bool_at := (bool_at m1)(gl := bool_at (memory s) gl, gv := bool_at (memory s) gv)\<rparr>"
    by (simp add: s')
  have fl: "bool_at (memory s') gl = bool_at (memory s) gl"
    by (simp add: mem)
  have fv: "bool_at (memory s') gv = bool_at (memory s) gv"
    by (simp add: mem)
  have ev: "new_events s s' =
         [LoadPtr (lightEntity + LIGHT_ENTITY_PARENT_OFFSET),
          AcquireShared, SetFind entity, Release,
          LoadBool gl, LoadBool gv, StoreBool gl False, StoreBool gv False,
          CallOrig sceneLight lightEntity flag,
          StoreBool gl (bool_at (memory s) gl), StoreBool gv (bool_at (memory s) gv)]"
    by (simp add: s' lookup_events_def light assms(2))
  from seen res mem fl fv ev show ?thesis by blast
qed

theorem C1_override_brackets_call_witness:
  "fst (GetParentEntityFromLightEntity 0x500 (bench_state [0x900])) = 0x900
   \<and> 0x900 \<in> set (g_entitiesIgnoringBlackout (bench_state [0x900]))
   \<and> bool_at (memory (bench_state [0x900])) 0x1000 = True
   \<and> bool_at (memory (bench_state [0x900])) 0x1001 = True
   \<and> bool_at (memory (snd (AddSceneLightHook bench_host 0x100 0x500 True (bench_state [0x900])))) 0x2000 = False
   \<and> bool_at (memory (snd (AddSceneLightHook bench_host 0x100 0x500 True (bench_state [0x900])))) 0x2001 = False
   \<and> bool_at (memory (snd (AddSceneLightHook bench_host 0x100 0x500 True (bench_state [0x900])))) 0x1000 = True
   \<and> bool_at (memory (snd (AddSceneLightHook bench_host 0x100 0x500 True (bench_state [0x900])))) 0x1001 = True"
proof -
  let ?s = "bench_state [0x900]"
  let ?m0 = "(memory ?s)\<lparr>bool_at := (bool_at (memory ?s))(0x1000 := False, 0x1001 := False)\<rparr>"
  have parent: "fst (GetParentEntityFromLightEntity 0x500 ?s) = 0x900"
    by (simp add: GetParentEntityFromLightEntity_def load_ptr_def emit_def bench_defs)
  have member: "(0x900 :: addr) \<in> set (g_entitiesIgnoringBlackout ?s)"
    by (simp add: bench_defs)
  have gl: "g_disableArtificialLights ?s = 0x1000" and gv: "g_disableArtificialVehLights ?s = 0x1001"
    by (simp_all add: bench_defs)
  have orig: "g_origAddSceneLight bench_host 0x100 0x500 True ?m0 =
      (True, ?m0\<lparr>bool_at := (bool_at ?m0)(0x2000 := bool_at ?m0 0x1000, 0x2001 := bool_at ?m0 0x1001)\<rparr>)"
    by (simp add: bench_host_def recording_orig_def)
  have before: "bool_at (memory ?s) 0x1000 = True \<and> bool_at (memory ?s) 0x1001 = True"
    by (simp add: bench_defs)
  from C1_override_brackets_call [OF parent _ member gl _ gv _ refl orig surjective_pairing]
  have "memory (snd (AddSceneLightHook bench_host 0x100 0x500 True ?s)) =
      (?m0\<lparr>bool_at := (bool_at ?m0)(0x2000 := bool_at ?m0 0x1000, 0x2001 := bool_at ?m0 0x1001)\<rparr>)
        \<lparr>bool_at := (bool_at (?m0\<lparr>bool_at := (bool_at ?m0)(0x2000 := bool_at ?m0 0x1000, 0x2001 := bool_at ?m0 0x1001)\<rparr>))
           (0x1000 := bool_at (memory ?s) 0x1000, 0x1001 := bool_at (memory ?s) 0x1001)\<rparr>"
    by simp
  with parent member before show ?thesis by simp
qed

text \<open>
  C2 as stated fails in its last clause: the hook stores to no flag cell for a parent
  entity that is not in the set, but the original function may. With an original
  function that stores false to the first flag cell, that flag is true when the hook
  is entered and false when it returns, and the hook has logged no store.
\<close>

theorem C2_flag_written_by_original_counterexample:
  "fst (GetParentEntityFromLightEntity 0x500 (bench_state [])) = 0x900
   \<and> 0x900 \<notin> set (g_entitiesIgnoringBlackout (bench_state []))
   \<and> g_disableArtificialLights (bench_state []) = 0x1000
   \<and> bool_at (memory (bench_state [])) 0x1000 = True
   \<and> bool_at (memory (snd (AddSceneLightHook bench_host_clearing 0x100 0x500 True
        (bench_state [])))) 0x1000 = False
   \<and> filter is_store (new_events (bench_state [])
        (snd (AddSceneLightHook bench_host_clearing 0x100 0x500 True (bench_state [])))) = []"
proof -
  let ?s = "bench_state []"
  have parent: "fst (GetParentEntityFromLightEntity 0x500 ?s) = 0x900"
    by (simp add: GetParentEntityFromLightEntity_def load_ptr_def emit_def bench_defs)
  have absent: "(0x900 :: addr) = 0 \<or> 0x900 \<notin> set (g_entitiesIgnoringBlackout ?s)
      \<or> g_disableArtificialLights ?s = 0 \<or> g_disableArtificialVehLights ?s = 0"
    by (simp add: bench_defs)
  have hook: "AddSceneLightHook bench_host_clearing 0x100 0x500 True ?s =
      (fst (g_origAddSceneLight bench_host_clearing 0x100 0x500 True (memory ?s)),
       ?s\<lparr>memory := snd (g_origAddSceneLight bench_host_clearing 0x100 0x500 True (memory ?s)),
         trace := trace ?s @ lookup_events 0x500 0x900 @ [CallOrig 0x100 0x500 True]\<rparr>)"
    by (rule hook_passthrough [OF parent absent])
  have after: "bool_at (memory (snd (AddSceneLightHook bench_host_clearing 0x100 0x500 True ?s)))
      0x1000 = False"
    unfolding hook by (simp add: bench_host_clearing_def clearing_orig_def)
  have stores: "filter is_store (new_events ?s
      (snd (AddSceneLightHook bench_host_clearing 0x100 0x500 True ?s))) = []"
    by (simp add: hook)
  have before: "0x900 \<notin> set (g_entitiesIgnoringBlackout ?s)
      \<and> g_disableArtificialLights ?s = 0x1000 \<and> bool_at (memory ?s) 0x1000 = True"
    by (simp add: bench_defs)
  from parent before after stores show ?thesis by simp
qed

text \<open>
  C2, amended: when the parent entity of the light is null or not in the set, the hook
  stores to no boolean cell and leaves the two flag pointers as they were. The
  original function runs on the memory the hook was entered with, so it sees the flag
  values of before the call, and the memory at return is the memory the original
  function left: each flag cell holds at return the value the original function left
  in it.
\<close>

theorem C2_non_member_no_write:
  assumes "fst (GetParentEntityFromLightEntity lightEntity s) = entity"
    and "entity = 0 \<or> entity \<notin> set (g_entitiesIgnoringBlackout s)"
    and "AddSceneLightHook h sceneLight lightEntity flag s = (result, s')"
    and "g_origAddSceneLight h sceneLight lightEntity flag (memory s) = (r, m1)"
  shows "result = r
    \<and> memory s' = m1
    \<and> filter is_store (new_events s s') = []
    \<and> g_disableArtificialLights s' = g_disableArtificialLights s
    \<and> g_disableArtificialVehLights s' = g_disableArtificialVehLights s
    \<and> bool_at (memory s') (g_disableArtificialLights s')
          = bool_at m1 (g_disableArtificialLights s)
    \<and> bool_at (memory s') (g_disableArtificialVehLights s')
          = bool_at m1 (g_disableArtificialVehLights s)"
proof -
  from assms(2)
  have "entity = 0 \<or> entity \<notin> set (g_entitiesIgnoringBlackout s)
      \<or> g_disableArtificialLights s = 0 \<or> g_disableArtificialVehLights s = 0"
    by blast
  from hook_passthrough [OF assms(1) this, of h sceneLight flag] assms(3) assms(4)
  have s': "s' = s\<lparr>memory := m1,
       trace := trace s @ lookup_events lightEntity entity @ [CallOrig sceneLight lightEntity flag]\<rparr>"
    and res: "result = r"
    by simp_all
  have mem: "memory s' = m1" by (simp add: s')
  have ev: "filter is_store (new_events s s') = []" by (simp add: s')
  have gl: "g_disableArtificialLights s' = g_disableArtificialLights s" by (simp add: s')
  have gv: "g_disableArtificialVehLights s' = g_disableArtificialVehLights s" by (simp add: s')
  from res mem ev gl gv show ?thesis by simp
qed

theorem C2_non_member_no_write_witness:
  "fst (GetParentEntityFromLightEntity 0x500 (bench_state [])) = 0x900
   \<and> 0x900 \<notin> set (g_entitiesIgnoringBlackout (bench_state []))
   \<and> bool_at (memory (bench_state [])) 0x1000 = True
   \<and> bool_at (memory (bench_state [])) 0x1001 = True
   \<and> bool_at (memory (snd (AddSceneLightHook bench_host 0x100 0x500 True (bench_state [])))) 0x2000 = True
   \<and> bool_at (memory (snd (AddSceneLightHook bench_host 0x100 0x500 True (bench_state [])))) 0x2001 = True
   \<and> bool_at (memory (snd (AddSceneLightHook bench_host 0x100 0x500 True (bench_state [])))) 0x1000 = True
   \<and> bool_at (memory (snd (AddSceneLightHook bench_host 0x100 0x500 True (bench_state [])))) 0x1001 = True"
proof -
  let ?s = "bench_state []"
  let ?m = "memory ?s"
  have parent: "fst (GetParentEntityFromLightEntity 0x500 ?s) = 0x900"
    by (simp add: GetParentEntityFromLightEntity_def load_ptr_def emit_def bench_defs)
  have absent: "(0x900 :: addr) = 0 \<or> 0x900 \<notin> set (g_entitiesIgnoringBlackout ?s)"
    by (simp add: bench_defs)
  have orig: "g_origAddSceneLight bench_host 0x100 0x500 True ?m =
      (True, ?m\<lparr>bool_at := (bool_at ?m)(0x2000 := bool_at ?m 0x1000, 0x2001 := bool_at ?m 0x1001)\<rparr>)"
    by (simp add: bench_host_def recording_orig_def)
  have before: "bool_at ?m 0x1000 = True \<and> bool_at ?m 0x1001 = True"
    by (simp add: bench_defs)
  from C2_non_member_no_write [OF parent absent surjective_pairing orig]
  have "memory (snd (AddSceneLightHook bench_host 0x100 0x500 True ?s)) =
      ?m\<lparr>bool_at := (bool_at ?m)(0x2000 := bool_at ?m 0x1000, 0x2001 := bool_at ?m 0x1001)\<rparr>"
    by simp
  with parent absent before show ?thesis by simp
qed

text \<open>
  C4: when one of the two flag pointers is null, the hook reads and writes no boolean
  cell, its only call out is the original function with the three arguments it was
  given, on the memory it was entered with, and it returns that call's result and
  memory.
\<close>

theorem C4_unresolved_flags_pass_through:
  assumes "g_disableArtificialLights s = 0 \<or> g_disableArtificialVehLights s = 0"
    and "AddSceneLightHook h sceneLight lightEntity flag s = (result, s')"
  shows "result = fst (g_origAddSceneLight h sceneLight lightEntity flag (memory s))
    \<and> memory s' = snd (g_origAddSceneLight h sceneLight lightEntity flag (memory s))
    \<and> filter is_flag_access (new_events s s') = []
    \<and> filter is_external_call (new_events s s') = [CallOrig sceneLight lightEntity flag]"
proof -
  let ?p = "fst (GetParentEntityFromLightEntity lightEntity s)"
  from assms(1)
  have "?p = 0 \<or> ?p \<notin> set (g_entitiesIgnoringBlackout s)
      \<or> g_disableArtificialLights s = 0 \<or> g_disableArtificialVehLights s = 0"
    by blast
  from hook_passthrough [OF refl this, of h sceneLight flag] assms(2)
  have s': "s' = s\<lparr>memory := snd (g_origAddSceneLight h sceneLight lightEntity flag (memory s)),
       trace := trace s @ lookup_events lightEntity ?p @ [CallOrig sceneLight lightEntity flag]\<rparr>"
    and res: "result = fst (g_origAddSceneLight h sceneLight lightEntity flag (memory s))"
    by simp_all
  have mem: "memory s' = snd (g_origAddSceneLight h sceneLight lightEntity flag (memory s))"
    by (simp add: s')
  have ev1: "filter is_flag_access (new_events s s') = []" by (simp add: s')
  have ev2: "filter is_external_call (new_events s s') = [CallOrig sceneLight lightEntity flag]"
    by (simp add: s')
  from res mem ev1 ev2 show ?thesis by simp
qed

theorem C4_unresolved_flags_pass_through_witness:
  "g_disableArtificialVehLights ((bench_state [0x900])\<lparr>g_disableArtificialVehLights := 0\<rparr>) = 0
   \<and> fst (AddSceneLightHook bench_host 0x100 0x500 True
        ((bench_state [0x900])\<lparr>g_disableArtificialVehLights := 0\<rparr>)) = True
   \<and> bool_at (memory (snd (AddSceneLightHook bench_host 0x100 0x500 True
        ((bench_state [0x900])\<lparr>g_disableArtificialVehLights := 0\<rparr>)))) 0x2000 = True
   \<and> bool_at (memory (snd (AddSceneLightHook bench_host 0x100 0x500 True
        ((bench_state [0x900])\<lparr>g_disableArtificialVehLights := 0\<rparr>)))) 0x1000 = True
   \<and> filter is_flag_access (new_events ((bench_state [0x900])\<lparr>g_disableArtificialVehLights := 0\<rparr>)
        (snd (AddSceneLightHook bench_host 0x100 0x500 True
          ((bench_state [0x900])\<lparr>g_disableArtificialVehLights := 0\<rparr>)))) = []"
proof -
  let ?s = "(bench_state [0x900])\<lparr>g_disableArtificialVehLights := 0\<rparr>"
  have unresolved: "g_disableArtificialLights ?s = 0 \<or> g_disableArtificialVehLights ?s = 0"
    by simp
  from C4_unresolved_flags_pass_through [OF unresolved surjective_pairing]
  show ?thesis by (simp add: bench_defs)
qed

text \<open>
  C8: a null light entity gives a null parent entity without a read of memory, and for a
  null entity \<open>DoesEntityIgnoreBlackout\<close> returns false and the state it was given:
  nothing is appended to the log, so the mutex is not taken and the set is not searched.
\<close>

theorem C8_null_identity:
  "GetParentEntityFromLightEntity 0 s = (0, s)
   \<and> DoesEntityIgnoreBlackout 0 s = (False, s)
   \<and> new_events s (snd (DoesEntityIgnoreBlackout 0 s)) = []
   \<and> DoesEntityIgnoreBlackout (fst (GetParentEntityFromLightEntity 0 s))
        (snd (GetParentEntityFromLightEntity 0 s)) = (False, s)"
  by (simp add: GetParentEntityFromLightEntity_def DoesEntityIgnoreBlackout_def)

text \<open>
  C10: the hook leaves the set as it found it. Of the mutex and the set it does nothing
  when the parent entity is null, and otherwise takes the shared lock, does one
  \<open>find\<close> and releases the lock; it never inserts, erases or clears.
\<close>

theorem C10_hook_reads_only:
  "g_entitiesIgnoringBlackout (snd (AddSceneLightHook h sceneLight lightEntity flag s))
     = g_entitiesIgnoringBlackout s
   \<and> filter is_set_or_lock_event
       (new_events s (snd (AddSceneLightHook h sceneLight lightEntity flag s)))
     = (if fst (GetParentEntityFromLightEntity lightEntity s) = 0 then []
        else [AcquireShared, SetFind (fst (GetParentEntityFromLightEntity lightEntity s)), Release])"
proof (cases "fst (GetParentEntityFromLightEntity lightEntity s) = 0
    \<or> fst (GetParentEntityFromLightEntity lightEntity s) \<notin> set (g_entitiesIgnoringBlackout s)
    \<or> g_disableArtificialLights s = 0 \<or> g_disableArtificialVehLights s = 0")
  case True
  show ?thesis
    by (simp add: hook_passthrough [OF refl True] lookup_events_def)
next
  case False
  then show ?thesis
    by (simp add: hook_override [OF refl _ _ refl refl _ _ refl surjective_pairing]
        lookup_events_def)
qed

subsection \<open>The natives\<close>

text \<open>
  C5: a handle that \<open>GetBaseFromGuid\<close> maps to null makes the setter return after the
  resolver call, with the set and the memory as they were, for either toggle, and makes
  the query return false; the enumeration returns the handles of the elements of the
  set, in iteration order, leaving out every element whose handle is 0. All three are
  total functions: there is no error result.
\<close>

theorem C5_invalid_handle_defaults:
  assumes "GetBaseFromGuid h entityHandle = 0"
  shows "SET_ENTITY_LIGHTS_IGNORE_ARTIFICIAL_STATE h entityHandle toggle s
           = emit (CallGetBaseFromGuid entityHandle) s
    \<and> g_entitiesIgnoringBlackout (SET_ENTITY_LIGHTS_IGNORE_ARTIFICIAL_STATE h entityHandle toggle s)
           = g_entitiesIgnoringBlackout s
    \<and> DOES_ENTITY_LIGHTS_IGNORE_ARTIFICIAL_STATE h entityHandle s
           = (False, emit (CallGetBaseFromGuid entityHandle) s)
    \<and> fst (GET_ALL_ENTITIES_IGNORING_ARTIFICIAL_LIGHTS_STATE h s)
           = filter (\<lambda>g. g \<noteq> 0) (map (GetGuidFromBase h) (g_entitiesIgnoringBlackout s))
    \<and> 0 \<notin> set (fst (GET_ALL_ENTITIES_IGNORING_ARTIFICIAL_LIGHTS_STATE h s))"
proof -
  have a: "SET_ENTITY_LIGHTS_IGNORE_ARTIFICIAL_STATE h entityHandle toggle s
           = emit (CallGetBaseFromGuid entityHandle) s"
    by (simp add: SET_null [OF assms] emit_def)
  have b: "g_entitiesIgnoringBlackout (SET_ENTITY_LIGHTS_IGNORE_ARTIFICIAL_STATE h entityHandle toggle s)
           = g_entitiesIgnoringBlackout s"
    by (simp add: SET_null [OF assms])
  have c: "DOES_ENTITY_LIGHTS_IGNORE_ARTIFICIAL_STATE h entityHandle s
           = (False, emit (CallGetBaseFromGuid entityHandle) s)"
    by (simp add: DOES_null [OF assms] emit_def)
  have d: "fst (GET_ALL_ENTITIES_IGNORING_ARTIFICIAL_LIGHTS_STATE h s)
           = filter (\<lambda>g. g \<noteq> 0) (map (GetGuidFromBase h) (g_entitiesIgnoringBlackout s))"
    by (simp add: GET_ALL_eq)
  have e: "0 \<notin> set (fst (GET_ALL_ENTITIES_IGNORING_ARTIFICIAL_LIGHTS_STATE h s))"
    by (simp add: d)
  from a b c d e show ?thesis by simp
qed

theorem C5_invalid_handle_defaults_witness:
  "GetBaseFromGuid bench_host 7 = 0
   \<and> g_entitiesIgnoringBlackout
        (SET_ENTITY_LIGHTS_IGNORE_ARTIFICIAL_STATE bench_host 7 True (bench_state [0x900])) = [0x900]
   \<and> g_entitiesIgnoringBlackout
        (SET_ENTITY_LIGHTS_IGNORE_ARTIFICIAL_STATE bench_host 7 False (bench_state [0x900])) = [0x900]
   \<and> fst (DOES_ENTITY_LIGHTS_IGNORE_ARTIFICIAL_STATE bench_host 7 (bench_state [0x900])) = False
   \<and> fst (GET_ALL_ENTITIES_IGNORING_ARTIFICIAL_LIGHTS_STATE bench_host (bench_state [0x900, 0x901])) = [42]"
proof -
  have invalid: "GetBaseFromGuid bench_host 7 = 0"
    by (simp add: bench_defs)
  from C5_invalid_handle_defaults [OF invalid, of True "bench_state [0x900]"]
    C5_invalid_handle_defaults [OF invalid, of False "bench_state [0x900]"]
    C5_invalid_handle_defaults [OF invalid, of True "bench_state [0x900, 0x901]"]
  show ?thesis by (simp add: bench_defs emit_def)
qed

text \<open>
  C6 as stated fails at the null identity: a handle that resolves to null makes the
  setter return before the insert, and \<open>DoesEntityIgnoreBlackout\<close> answers false for
  null before it looks at the set.
\<close>

theorem C6_null_identity_counterexample:
  "GetBaseFromGuid bench_host 7 = 0
   \<and> \<not> fst (DoesEntityIgnoreBlackout (GetBaseFromGuid bench_host 7)
        (SET_ENTITY_LIGHTS_IGNORE_ARTIFICIAL_STATE bench_host 7 True (bench_state [])))"
  by (simp add: bench_defs DoesEntityIgnoreBlackout_def)

text \<open>
  C6, amended: for the identity \<open>i\<close> a handle resolves to, whatever the set holds: if
  \<open>i\<close> is not null, then after the setter with toggle true \<open>DoesEntityIgnoreBlackout i\<close>
  is true; for every \<open>i\<close>, after the setter with toggle false it is false.
\<close>

theorem C6_add_remove_contains:
  assumes "GetBaseFromGuid h entityHandle = i"
  shows "(i \<noteq> 0 \<longrightarrow>
            fst (DoesEntityIgnoreBlackout i
              (SET_ENTITY_LIGHTS_IGNORE_ARTIFICIAL_STATE h entityHandle True s)))
    \<and> \<not> fst (DoesEntityIgnoreBlackout i
              (SET_ENTITY_LIGHTS_IGNORE_ARTIFICIAL_STATE h entityHandle False s))"
proof (cases "i = 0")
  case True
  then show ?thesis by (simp add: DoesEntityIgnoreBlackout_fst)
next
  case False
  show ?thesis
    by (simp add: DoesEntityIgnoreBlackout_fst SET_insert [OF assms False]
        SET_erase [OF assms False] False)
qed

theorem C6_add_remove_contains_witness:
  "GetBaseFromGuid bench_host 42 = 0x900 \<and> (0x900 :: addr) \<noteq> 0
   \<and> fst (DoesEntityIgnoreBlackout 0x900
        (SET_ENTITY_LIGHTS_IGNORE_ARTIFICIAL_STATE bench_host 42 True (bench_state [])))
   \<and> \<not> fst (DoesEntityIgnoreBlackout 0x900
        (SET_ENTITY_LIGHTS_IGNORE_ARTIFICIAL_STATE bench_host 42 False (bench_state [0x900])))"
proof -
  have valid: "GetBaseFromGuid bench_host 42 = 0x900"
    by (simp add: bench_defs)
  from C6_add_remove_contains [OF valid, of "bench_state []"]
    C6_add_remove_contains [OF valid, of "bench_state [0x900]"]
  show ?thesis by (simp add: valid)
qed

text \<open>
  C7: after the clear-all native, and after the session-end handler, the set is empty:
  \<open>DoesEntityIgnoreBlackout\<close> and the query native answer false for every identity and
  handle, and the enumeration returns the empty vector.
\<close>

theorem C7_clear_and_teardown_empty:
  "g_entitiesIgnoringBlackout (CLEAR_ALL_ENTITY_LIGHTS_IGNORE_ARTIFICIAL_STATE s) = []
   \<and> g_entitiesIgnoringBlackout (OnKillNetworkDone s) = []
   \<and> fst (DoesEntityIgnoreBlackout i (CLEAR_ALL_ENTITY_LIGHTS_IGNORE_ARTIFICIAL_STATE s)) = False
   \<and> fst (DoesEntityIgnoreBlackout i (OnKillNetworkDone s)) = False
   \<and> fst (GET_ALL_ENTITIES_IGNORING_ARTIFICIAL_LIGHTS_STATE h
        (CLEAR_ALL_ENTITY_LIGHTS_IGNORE_ARTIFICIAL_STATE s)) = []
   \<and> fst (GET_ALL_ENTITIES_IGNORING_ARTIFICIAL_LIGHTS_STATE h (OnKillNetworkDone s)) = []"
  by (simp add: CLEAR_ALL_eq OnKillNetworkDone_eq GET_ALL_eq DoesEntityIgnoreBlackout_fst)

text \<open>
  C9: from a state with the empty set, after any sequence of invocations of the four
  natives, the session-end handler and the hook, null is not in the set; and the setter
  with a handle that resolves to null leaves the set of any state as it was.
\<close>

theorem C9_null_never_member:
  assumes "g_entitiesIgnoringBlackout s0 = []"
  shows "0 \<notin> set (g_entitiesIgnoringBlackout (run cs s0))
    \<and> (GetBaseFromGuid h g = 0 \<longrightarrow>
         g_entitiesIgnoringBlackout (SET_ENTITY_LIGHTS_IGNORE_ARTIFICIAL_STATE h g b s)
           = g_entitiesIgnoringBlackout s)"
proof -
  from assms have "0 \<notin> set (g_entitiesIgnoringBlackout s0)" by simp
  then have "0 \<notin> set (g_entitiesIgnoringBlackout (run cs s0))" by (rule run_null_free)
  then show ?thesis by (simp add: SET_entities)
qed

theorem C9_null_never_member_witness:
  "g_entitiesIgnoringBlackout (bench_state []) = []
   \<and> GetBaseFromGuid bench_host 7 = 0
   \<and> g_entitiesIgnoringBlackout
        (run [SetIgnoreState bench_host 7 True, SetIgnoreState bench_host 42 True,
              SceneLight bench_host 0x100 0 False, GetIgnoreState bench_host 7]
           (bench_state [])) = [0x900]
   \<and> 0 \<notin> set (g_entitiesIgnoringBlackout
        (run [SetIgnoreState bench_host 7 True, SetIgnoreState bench_host 42 True,
              SceneLight bench_host 0x100 0 False, GetIgnoreState bench_host 7]
           (bench_state [])))"
proof -
  have empty: "g_entitiesIgnoringBlackout (bench_state []) = []"
    by (simp add: bench_defs)
  have invalid: "GetBaseFromGuid bench_host 7 = 0"
    by (simp add: bench_defs)
  have final: "g_entitiesIgnoringBlackout
        (run [SetIgnoreState bench_host 7 True, SetIgnoreState bench_host 42 True,
              SceneLight bench_host 0x100 0 False, GetIgnoreState bench_host 7]
           (bench_state [])) = [0x900]"
    by (simp add: SET_entities DOES_entities hook_entities bench_defs)
  from C9_null_never_member [OF empty,
      of "[SetIgnoreState bench_host 7 True, SetIgnoreState bench_host 42 True,
              SceneLight bench_host 0x100 0 False, GetIgnoreState bench_host 7]"
         bench_host 7 True "bench_state []"]
    empty invalid final
  show ?thesis by simp
qed

text \<open>
  C3 as stated fails for the enumeration: its shared lock is taken before the loop and
  released at the end of the handler, so every \<open>GetGuidFromBase\<close> call of the loop is
  made with the lock held.
\<close>

theorem C3_enumeration_counterexample:
  "new_events (bench_state [0x900])
      (snd (GET_ALL_ENTITIES_IGNORING_ARTIFICIAL_LIGHTS_STATE bench_host (bench_state [0x900])))
     = [AcquireShared, CallGetGuidFromBase 0x900, Release]
   \<and> \<not> no_call_while_locked False
        (new_events (bench_state [0x900])
          (snd (GET_ALL_ENTITIES_IGNORING_ARTIFICIAL_LIGHTS_STATE bench_host (bench_state [0x900]))))"
  by (simp add: GET_ALL_eq bench_state_def new_events_def)

text \<open>
  C3, amended: the hook calls the original function, and the setter and the query call
  \<open>GetBaseFromGuid\<close>, with the lock not held; the clear-all native and the session-end
  handler make no call out. The enumeration takes the shared lock, calls
  \<open>GetGuidFromBase\<close> once for each element of the set and then releases the lock, so it
  makes no call under the lock only when the set is empty.
\<close>

theorem C3_lock_scopes:
  "no_call_while_locked False
     (new_events s (snd (AddSceneLightHook h sceneLight lightEntity flag s)))
   \<and> no_call_while_locked False
     (new_events s (SET_ENTITY_LIGHTS_IGNORE_ARTIFICIAL_STATE h g b s))
   \<and> no_call_while_locked False
     (new_events s (snd (DOES_ENTITY_LIGHTS_IGNORE_ARTIFICIAL_STATE h g s)))
   \<and> filter is_external_call (new_events s (CLEAR_ALL_ENTITY_LIGHTS_IGNORE_ARTIFICIAL_STATE s)) = []
   \<and> filter is_external_call (new_events s (OnKillNetworkDone s)) = []
   \<and> new_events s (snd (GET_ALL_ENTITIES_IGNORING_ARTIFICIAL_LIGHTS_STATE h s))
       = AcquireShared # map CallGetGuidFromBase (g_entitiesIgnoringBlackout s) @ [Release]
   \<and> no_call_while_locked False
       (new_events s (snd (GET_ALL_ENTITIES_IGNORING_ARTIFICIAL_LIGHTS_STATE h s)))
       = (g_entitiesIgnoringBlackout s = [])"
proof -
  have enum: "new_events s (snd (GET_ALL_ENTITIES_IGNORING_ARTIFICIAL_LIGHTS_STATE h s))
       = AcquireShared # map CallGetGuidFromBase (g_entitiesIgnoringBlackout s) @ [Release]"
    by (simp add: GET_ALL_eq)
  have enum_scope: "no_call_while_locked False
       (new_events s (snd (GET_ALL_ENTITIES_IGNORING_ARTIFICIAL_LIGHTS_STATE h s)))
       = (g_entitiesIgnoringBlackout s = [])"
    by (simp add: enum locked_resolver_calls)
  have clear: "filter is_external_call
      (new_events s (CLEAR_ALL_ENTITY_LIGHTS_IGNORE_ARTIFICIAL_STATE s)) = []"
    by (simp add: CLEAR_ALL_eq)
  have kill: "filter is_external_call (new_events s (OnKillNetworkDone s)) = []"
    by (simp add: OnKillNetworkDone_eq)
  from hook_lock_scope SET_lock_scope DOES_lock_scope clear kill enum enum_scope
  show ?thesis by blast
qed

end
